theory Spec2Isabelle
  imports Main
begin

section \<open>Data model of the executor\<close>

text \<open>
  The development embeds \<^verbatim>\<open>executor/executor.go\<close>: the admission loop
  \<^verbatim>\<open>serveCreateFuncServices\<close>, the creation pipeline
  \<^verbatim>\<open>createServiceForFunction\<close> and the environment resolver
  \<^verbatim>\<open>getFunctionEnv\<close>. The packages the file imports (\<^verbatim>\<open>crd\<close>,
  \<^verbatim>\<open>cache\<close>, \<^verbatim>\<open>fscache\<close>, \<^verbatim>\<open>poolmgr\<close>) are collaborators: the
  metadata client and the pool manager are fields of the executor holding functions, the
  time-to-live cache and the service registry are modelled from their described interface.
\<close>

text \<open>The fields of \<^verbatim>\<open>metav1.ObjectMeta\<close> that the executor reads.\<close>

record ObjectMeta =
  Name :: string
  Namespace :: string
  ResourceVersion :: string

text \<open>
  Modelled from the spec: \<^verbatim>\<open>crd.CacheKey\<close> is not part of the file; the function
  identity is a key derived from namespace, name and version marker.
\<close>

definition CacheKey :: "ObjectMeta \<Rightarrow> string" where
  "CacheKey m = Namespace m @ ''/'' @ Name m @ ''/'' @ ResourceVersion m"

text \<open>
  Modelled from the spec: the file declares no error value of its own; the error classes
  are those of the error taxonomy.
\<close>

datatype error = NotFound | Unavailable | WaitFailed | Internal

record EnvironmentReference =
  refNamespace :: string
  refName :: string

record Function =
  fnMetadata :: ObjectMeta
  specEnvironment :: EnvironmentReference

record Environment =
  envNamespace :: string
  envName :: string
  envImage :: string

text \<open>A service handle (\<^verbatim>\<open>*fscache.FuncSvc\<close>) is opaque to the executor.\<close>

datatype FuncSvc = FuncSvc string

datatype Pool = Pool string

text \<open>
  \<^verbatim>\<open>createFuncServiceResponse\<close>: both fields may be nil at once, so they are two
  options and not a sum.
\<close>

record createFuncServiceResponse =
  funcSvc :: "FuncSvc option"
  err :: "error option"

record createFuncServiceRequest =
  funcMeta :: ObjectMeta
  respChan :: nat

subsection \<open>Collaborators\<close>

text \<open>
  The metadata client: \<^verbatim>\<open>Functions(ns).Get(name)\<close> and
  \<^verbatim>\<open>Environments(ns).Get(name)\<close>, each a definition or an error.
\<close>

record FissionClient =
  Functions_Get :: "string \<Rightarrow> string \<Rightarrow> error + Function"
  Environments_Get :: "string \<Rightarrow> string \<Rightarrow> error + Environment"

text \<open>
  The pool manager: \<^verbatim>\<open>gpm.GetPool(env)\<close> and \<^verbatim>\<open>pool.GetFuncSvc(m)\<close>, each a
  value or an error.
\<close>

record GenericPoolManager =
  GetPool :: "Environment \<Rightarrow> error + Pool"
  GetFuncSvc :: "Pool \<Rightarrow> ObjectMeta \<Rightarrow> error + FuncSvc"

text \<open>
  Modelled from the spec: the time-to-live cache (\<^verbatim>\<open>cache.Cache\<close>) offers a point
  lookup and a write with a fixed expiry measured from insertion. Time is a number of
  nanoseconds, as \<^verbatim>\<open>time.Duration\<close> is.
\<close>

definition Second :: nat where
  "Second = 1000000000"

record 'v Cache =
  ctimeExpiry :: nat
  entries :: "string \<rightharpoonup> ('v \<times> nat)"

definition MakeCache :: "nat \<Rightarrow> 'v Cache" where
  "MakeCache ctime = \<lparr>ctimeExpiry = ctime, entries = Map.empty\<rparr>"

definition cache_Get :: "'v Cache \<Rightarrow> nat \<Rightarrow> string \<Rightarrow> 'v option" where
  "cache_Get c t k =
     (case entries c k of
        None \<Rightarrow> None
      | Some (v, t0) \<Rightarrow> if t < t0 + ctimeExpiry c then Some v else None)"

definition cache_Set :: "'v Cache \<Rightarrow> nat \<Rightarrow> string \<Rightarrow> 'v \<Rightarrow> 'v Cache" where
  "cache_Set c t k v = c\<lparr>entries := (entries c)(k \<mapsto> (v, t))\<rparr>"

text \<open>
  Modelled from the spec: the service registry (\<^verbatim>\<open>fscache.FunctionServiceCache\<close>)
  answers a lookup by function identity with a handle or with its not-found error.
\<close>

type_synonym FunctionServiceCache = "string \<rightharpoonup> FuncSvc"


text \<open>\<^verbatim>\<open>os.Getenv\<close>: the value of the variable, empty when it is not set.\<close>

definition Getenv :: "(string \<rightharpoonup> string) \<Rightarrow> string \<Rightarrow> string" where
  "Getenv environ k = (case environ k of None \<Rightarrow> [] | Some v \<Rightarrow> v)"

subsection \<open>The executor and its goroutines\<close>

text \<open>A call that the resolver makes to the metadata client, with namespace and name.\<close>

datatype apiCall = FunctionsGet string string | EnvironmentsGet string string

text \<open>
  The goroutines that \<^verbatim>\<open>serveCreateFuncServices\<close> launches. A creation goroutine
  (the first closure) runs the pipeline, sends the response, deletes the marker and calls
  \<^verbatim>\<open>wg.Done\<close>; a waiting goroutine (the second closure) returns from
  \<^verbatim>\<open>wg.Wait\<close>, reads the registry and sends the response. The stage is the next
  statement to run; the number is the wait group the closure captured.
\<close>

datatype createStage =
    CreateService
  | SendCreated createFuncServiceResponse
  | DeleteMarker
  | WgDone
  | CreateReturned

datatype waitStage =
    WgWait
  | ReadRegistry
  | SendRead createFuncServiceResponse
  | WaitReturned

datatype goroutine =
    Creating createFuncServiceRequest nat createStage
  | Waiting createFuncServiceRequest nat waitStage

text \<open>
  The \<^verbatim>\<open>Executor\<close> struct, with what it reaches made explicit: the wait groups it
  allocated (a counter each, the map holds an index), the goroutines it launched, the
  messages sent on each response channel, the environment variables of the process, the
  clock, and the calls made to the metadata client.
\<close>

record Executor =
  gpm :: GenericPoolManager
  functionEnv :: "Environment Cache"
  fissionClient :: FissionClient
  fsCache :: FunctionServiceCache
  fsCreateWg :: "string \<rightharpoonup> nat"
  waitGroups :: "nat list"
  goroutines :: "goroutine list"
  sent :: "nat \<Rightarrow> createFuncServiceResponse list"
  environ :: "string \<rightharpoonup> string"
  now :: nat
  apiCalls :: "apiCall list"

definition MakeExecutor ::
  "GenericPoolManager \<Rightarrow> FissionClient \<Rightarrow> FunctionServiceCache \<Rightarrow> (string \<rightharpoonup> string) \<Rightarrow> nat \<Rightarrow> Executor" where
  "MakeExecutor g client fsc env t =
     \<lparr>gpm = g,
      functionEnv = MakeCache (10 * Second),
      fissionClient = client,
      fsCache = fsc,
      fsCreateWg = Map.empty,
      waitGroups = [],
      goroutines = [],
      sent = (\<lambda>_. []),
      environ = env,
      now = t,
      apiCalls = []\<rparr>"

section \<open>The environment resolver and the creation pipeline\<close>

definition getFunctionEnv :: "ObjectMeta \<Rightarrow> Executor \<Rightarrow> (error + Environment) \<times> Executor" where
  "getFunctionEnv m ex =
     (case cache_Get (functionEnv ex) (now ex) (CacheKey m) of
        Some env \<Rightarrow> (Inr env, ex)
      | None \<Rightarrow>
          (let ex1 = ex\<lparr>apiCalls := apiCalls ex @ [FunctionsGet (Namespace m) (Name m)]\<rparr> in
           case Functions_Get (fissionClient ex) (Namespace m) (Name m) of
             Inl e \<Rightarrow> (Inl e, ex1)
           | Inr f \<Rightarrow>
               (let ns = refNamespace (specEnvironment f);
                    nm = refName (specEnvironment f);
                    ex2 = ex1\<lparr>apiCalls := apiCalls ex1 @ [EnvironmentsGet ns nm]\<rparr> in
                case Environments_Get (fissionClient ex) ns nm of
                  Inl e \<Rightarrow> (Inl e, ex2)
                | Inr env \<Rightarrow>
                    (Inr env,
                     ex2\<lparr>functionEnv := cache_Set (functionEnv ex2) (now ex2) (CacheKey m) env\<rparr>))))"

text \<open>
  Modelled from the spec: \<^verbatim>\<open>pool.GetFuncSvc\<close> is not part of the file; on success
  it has populated the service registry with the handle it returns (the comment at the
  call says so too).
\<close>

definition pool_GetFuncSvc :: "Pool \<Rightarrow> ObjectMeta \<Rightarrow> Executor \<Rightarrow> (error + FuncSvc) \<times> Executor" where
  "pool_GetFuncSvc pool m ex =
     (case GetFuncSvc (gpm ex) pool m of
        Inl e \<Rightarrow> (Inl e, ex)
      | Inr fsvc \<Rightarrow> (Inr fsvc, ex\<lparr>fsCache := (fsCache ex)(CacheKey m \<mapsto> fsvc)\<rparr>))"

definition createServiceForFunction ::
  "ObjectMeta \<Rightarrow> Executor \<Rightarrow> (FuncSvc option \<times> error option) \<times> Executor" where
  "createServiceForFunction m ex =
     (case getFunctionEnv m ex of
        (Inl e, ex1) \<Rightarrow> ((None, Some e), ex1)
      | (Inr env, ex1) \<Rightarrow>
          (let backend = Getenv (environ ex1) ''EXECUTOR_BACKEND'' in
           if backend = ''DEPLOY'' then ((None, None), ex1)
           else
             (case GetPool (gpm ex1) env of
                Inl e \<Rightarrow> ((None, Some e), ex1)
              | Inr pool \<Rightarrow>
                  (case pool_GetFuncSvc pool m ex1 of
                     (Inl e, ex2) \<Rightarrow> ((None, Some e), ex2)
                   | (Inr fsvc, ex2) \<Rightarrow> ((Some fsvc, None), ex2)))))"

section \<open>The admission loop and its goroutines\<close>





section \<open>Repeated resolutions\<close>

text \<open>
  A sequence of calls of the resolver on one executor. Before each call time passes and
  the metadata client may answer differently. Each call is recorded with its result and
  the number of calls it made to the metadata client.
\<close>

fun resolutions ::
  "(nat \<times> FissionClient \<times> ObjectMeta) list \<Rightarrow> Executor \<Rightarrow> ((error + Environment) \<times> nat) list" where
  "resolutions [] ex = []"
| "resolutions ((d, client, m) # cs) ex =
     (let ex0 = ex\<lparr>now := now ex + d, fissionClient := client\<rparr> in
      case getFunctionEnv m ex0 of
        (r, ex1) \<Rightarrow> (r, length (apiCalls ex1) - length (apiCalls ex0)) # resolutions cs ex1)"

section \<open>Concrete executors\<close>

text \<open>
  A function \<open>hello\<close> in the environment \<open>nodejs\<close>, a metadata client that knows
  both, one whose environment lookup fails, and a pool manager that serves every request.
\<close>

definition exampleMeta :: ObjectMeta where
  "exampleMeta = \<lparr>Name = ''hello'', Namespace = ''default'', ResourceVersion = ''1''\<rparr>"

definition otherMeta :: ObjectMeta where
  "otherMeta = \<lparr>Name = ''other'', Namespace = ''default'', ResourceVersion = ''7''\<rparr>"

definition exampleEnv :: Environment where
  "exampleEnv = \<lparr>envNamespace = ''default'', envName = ''nodejs'', envImage = ''fission/node-env''\<rparr>"

definition exampleClient :: FissionClient where
  "exampleClient =
     \<lparr>Functions_Get = (\<lambda>ns n. if ns = ''default'' \<and> n = ''hello''
          then Inr \<lparr>fnMetadata = exampleMeta,
                    specEnvironment = \<lparr>refNamespace = ''default'', refName = ''nodejs''\<rparr>\<rparr>
          else Inl NotFound),
      Environments_Get = (\<lambda>ns n. if ns = ''default'' \<and> n = ''nodejs''
          then Inr exampleEnv else Inl NotFound)\<rparr>"

definition brokenClient :: FissionClient where
  "brokenClient =
     \<lparr>Functions_Get = (\<lambda>ns n. if ns = ''default'' \<and> n = ''hello''
          then Inr \<lparr>fnMetadata = exampleMeta,
                    specEnvironment = \<lparr>refNamespace = ''default'', refName = ''nodejs''\<rparr>\<rparr>
          else Inl NotFound),
      Environments_Get = (\<lambda>ns n. Inl Unavailable)\<rparr>"

definition examplePools :: GenericPoolManager where
  "examplePools =
     \<lparr>GetPool = (\<lambda>env. Inr (Pool (envName env))),
      GetFuncSvc = (\<lambda>p m. Inr (FuncSvc (''svc-'' @ Name m)))\<rparr>"

definition deployExecutor :: Executor where
  "deployExecutor =
     MakeExecutor examplePools exampleClient Map.empty [''EXECUTOR_BACKEND'' \<mapsto> ''DEPLOY''] 0"

definition poolExecutor :: Executor where
  "poolExecutor = MakeExecutor examplePools exampleClient Map.empty Map.empty 0"

definition brokenExecutor :: Executor where
  "brokenExecutor = MakeExecutor examplePools brokenClient Map.empty Map.empty 0"

section \<open>Bookkeeping of the admission loop\<close>



























section \<open>Properties of the resolver and of the pipeline\<close>

lemma getFunctionEnv_environ: "environ (snd (getFunctionEnv m ex)) = environ ex"
  by (simp add: getFunctionEnv_def Let_def split: option.splits sum.splits)

lemma getFunctionEnv_fsCache: "fsCache (snd (getFunctionEnv m ex)) = fsCache ex"
  by (simp add: getFunctionEnv_def Let_def split: option.splits sum.splits)

text \<open>
  C9. When \<^verbatim>\<open>EXECUTOR_BACKEND\<close> is \<^verbatim>\<open>DEPLOY\<close>, the dispatch that follows a
  successful resolution returns a nil service together with a nil error, for every
  function and every resolved environment, and leaves the service registry as it was.
\<close>

theorem createServiceForFunction_deploy:
  assumes "Getenv (environ ex) ''EXECUTOR_BACKEND'' = ''DEPLOY''"
    and "getFunctionEnv m ex = (Inr env, ex1)"
  shows "createServiceForFunction m ex = ((None, None), ex1) \<and> fsCache ex1 = fsCache ex"
proof -
  have "environ ex1 = environ ex" "fsCache ex1 = fsCache ex"
    using getFunctionEnv_environ [of m ex] getFunctionEnv_fsCache [of m ex] assms(2) by simp_all
  then show ?thesis
    using assms by (simp add: createServiceForFunction_def)
qed

lemmas example_defs = exampleMeta_def exampleEnv_def exampleClient_def examplePools_def
  MakeExecutor_def MakeCache_def

lemma getFunctionEnv_deployExecutor:
  "fst (getFunctionEnv exampleMeta deployExecutor) = Inr exampleEnv"
  by (simp add: getFunctionEnv_def deployExecutor_def example_defs cache_Get_def Let_def)

theorem createServiceForFunction_deploy_witness:
  "Getenv (environ deployExecutor) ''EXECUTOR_BACKEND'' = ''DEPLOY'' \<and>
   fst (getFunctionEnv exampleMeta deployExecutor) = Inr exampleEnv \<and>
   fst (createServiceForFunction exampleMeta deployExecutor) = (None, None)"
proof -
  have h1: "Getenv (environ deployExecutor) ''EXECUTOR_BACKEND'' = ''DEPLOY''"
    by (simp add: Getenv_def deployExecutor_def MakeExecutor_def)
  have h2: "getFunctionEnv exampleMeta deployExecutor =
    (Inr exampleEnv, snd (getFunctionEnv exampleMeta deployExecutor))"
    using getFunctionEnv_deployExecutor by (metis prod.collapse)
  show ?thesis
    using createServiceForFunction_deploy [OF h1 h2] h1 getFunctionEnv_deployExecutor by simp
qed

text \<open>
  C10. The backend is compared with the exact string \<^verbatim>\<open>DEPLOY\<close>. With the variable
  unset, or set to any other value, the call takes the pool path: its result is the
  resolver's error, the pool manager's error, or the service the pool returned, and never
  an error about the configuration.
\<close>

theorem createServiceForFunction_default_pool:
  assumes "environ ex ''EXECUTOR_BACKEND'' \<noteq> Some ''DEPLOY''"
  shows "createServiceForFunction m ex =
     (case getFunctionEnv m ex of
        (Inl e, ex1) \<Rightarrow> ((None, Some e), ex1)
      | (Inr env, ex1) \<Rightarrow>
          (case GetPool (gpm ex1) env of
             Inl e \<Rightarrow> ((None, Some e), ex1)
           | Inr pool \<Rightarrow>
               (case GetFuncSvc (gpm ex1) pool m of
                  Inl e \<Rightarrow> ((None, Some e), ex1)
                | Inr fsvc \<Rightarrow>
                    ((Some fsvc, None), ex1\<lparr>fsCache := (fsCache ex1)(CacheKey m \<mapsto> fsvc)\<rparr>))))"
proof -
  have "Getenv (environ (snd (getFunctionEnv m ex))) ''EXECUTOR_BACKEND'' \<noteq> ''DEPLOY''"
    using assms by (auto simp: getFunctionEnv_environ Getenv_def split: option.splits)
  then show ?thesis
    by (auto simp: createServiceForFunction_def pool_GetFuncSvc_def split: prod.splits sum.splits)
qed

theorem createServiceForFunction_default_pool_witness:
  "environ poolExecutor ''EXECUTOR_BACKEND'' \<noteq> Some ''DEPLOY'' \<and>
   fst (createServiceForFunction exampleMeta poolExecutor) = (Some (FuncSvc ''svc-hello''), None) \<and>
   environ (poolExecutor\<lparr>environ := [''EXECUTOR_BACKEND'' \<mapsto> ''deploy'']\<rparr>) ''EXECUTOR_BACKEND''
     \<noteq> Some ''DEPLOY'' \<and>
   fst (createServiceForFunction exampleMeta
     (poolExecutor\<lparr>environ := [''EXECUTOR_BACKEND'' \<mapsto> ''deploy'']\<rparr>)) = (Some (FuncSvc ''svc-hello''), None)"
proof -
  have h1: "environ poolExecutor ''EXECUTOR_BACKEND'' \<noteq> Some ''DEPLOY''"
    by (simp add: poolExecutor_def MakeExecutor_def)
  have h2: "environ (poolExecutor\<lparr>environ := [''EXECUTOR_BACKEND'' \<mapsto> ''deploy'']\<rparr>) ''EXECUTOR_BACKEND''
     \<noteq> Some ''DEPLOY''"
    by simp
  show ?thesis
    using createServiceForFunction_default_pool [OF h1, of exampleMeta]
      createServiceForFunction_default_pool [OF h2, of exampleMeta] h1
    by (simp add: getFunctionEnv_def poolExecutor_def example_defs cache_Get_def cache_Set_def Let_def)
qed

text \<open>
  The strategy is not fixed at construction: the same executor is deploy-backed in one
  call and pool-backed in the next, after the variable has changed in between.
\<close>

theorem strategy_fixed_counterexample:
  "fst (createServiceForFunction exampleMeta deployExecutor) = (None, None) \<and>
   fst (createServiceForFunction exampleMeta
     ((snd (createServiceForFunction exampleMeta deployExecutor))
        \<lparr>environ := (environ deployExecutor)(''EXECUTOR_BACKEND'' \<mapsto> ''POOLMGR'')\<rparr>))
     = (Some (FuncSvc ''svc-hello''), None)"
  by (simp add: createServiceForFunction_def pool_GetFuncSvc_def getFunctionEnv_def Getenv_def
      deployExecutor_def example_defs cache_Get_def cache_Set_def Let_def)

lemma getFunctionEnv_environ_update:
  "getFunctionEnv m (ex\<lparr>environ := env'\<rparr>) =
     (fst (getFunctionEnv m ex), (snd (getFunctionEnv m ex))\<lparr>environ := env'\<rparr>)"
  by (simp add: getFunctionEnv_def Let_def split: option.splits sum.splits)

text \<open>
  C8, as amended. The backend is read from the process environment at every call. A call
  depends on the environment only through whether \<^verbatim>\<open>EXECUTOR_BACKEND\<close> is
  \<^verbatim>\<open>DEPLOY\<close> at that call: two environments that agree on this give the same result and
  the same effects.
\<close>

theorem createServiceForFunction_reads_backend:
  assumes "(env' ''EXECUTOR_BACKEND'' = Some ''DEPLOY'') = (environ ex ''EXECUTOR_BACKEND'' = Some ''DEPLOY'')"
  shows "createServiceForFunction m (ex\<lparr>environ := env'\<rparr>) =
     (fst (createServiceForFunction m ex), (snd (createServiceForFunction m ex))\<lparr>environ := env'\<rparr>)"
proof -
  have "(Getenv env' ''EXECUTOR_BACKEND'' = ''DEPLOY'') =
        (Getenv (environ (snd (getFunctionEnv m ex))) ''EXECUTOR_BACKEND'' = ''DEPLOY'')"
    using assms by (auto simp: getFunctionEnv_environ Getenv_def split: option.splits)
  then show ?thesis
    by (auto simp: createServiceForFunction_def pool_GetFuncSvc_def getFunctionEnv_environ_update
        split: prod.splits sum.splits)
qed

theorem createServiceForFunction_reads_backend_witness:
  "([''EXECUTOR_BACKEND'' \<mapsto> ''deploy''] ''EXECUTOR_BACKEND'' = Some ''DEPLOY'') =
     (environ poolExecutor ''EXECUTOR_BACKEND'' = Some ''DEPLOY'') \<and>
   fst (createServiceForFunction exampleMeta
     (poolExecutor\<lparr>environ := [''EXECUTOR_BACKEND'' \<mapsto> ''deploy'']\<rparr>)) =
   fst (createServiceForFunction exampleMeta poolExecutor)"
proof -
  have h: "([''EXECUTOR_BACKEND'' \<mapsto> ''deploy''] ''EXECUTOR_BACKEND'' = Some ''DEPLOY'') =
     (environ poolExecutor ''EXECUTOR_BACKEND'' = Some ''DEPLOY'')"
    by (simp add: poolExecutor_def MakeExecutor_def)
  show ?thesis
    using createServiceForFunction_reads_backend
      [of "[''EXECUTOR_BACKEND'' \<mapsto> ''deploy'']" poolExecutor exampleMeta] h by simp
qed

lemma cache_Get_miss_later:
  "cache_Get c t k = None \<Longrightarrow> t \<le> t' \<Longrightarrow> cache_Get c t' k = None"
  by (auto simp: cache_Get_def split: option.splits if_splits)

lemma getFunctionEnv_hit:
  "cache_Get (functionEnv ex) (now ex) (CacheKey m) = Some env \<Longrightarrow>
   getFunctionEnv m ex = (Inr env, ex)"
  by (simp add: getFunctionEnv_def)

lemma getFunctionEnv_miss_first_call:
  "cache_Get (functionEnv ex) (now ex) (CacheKey m) = None \<Longrightarrow>
   take (Suc (length (apiCalls ex))) (apiCalls (snd (getFunctionEnv m ex))) =
     apiCalls ex @ [FunctionsGet (Namespace m) (Name m)]"
  by (simp add: getFunctionEnv_def Let_def split: sum.splits)

text \<open>
  C7. When the cache misses and either fetch fails, the resolver returns that error as it
  is and leaves the cache as it was; a later call on that cache starts with the fetch of
  the function again.
\<close>

theorem getFunctionEnv_failure_not_cached:
  assumes miss: "cache_Get (functionEnv ex) (now ex) (CacheKey m) = None"
    and fail: "Functions_Get (fissionClient ex) (Namespace m) (Name m) = Inl e \<or>
      (\<exists>f. Functions_Get (fissionClient ex) (Namespace m) (Name m) = Inr f \<and>
           Environments_Get (fissionClient ex)
             (refNamespace (specEnvironment f)) (refName (specEnvironment f)) = Inl e)"
    and later: "functionEnv ex' = functionEnv (snd (getFunctionEnv m ex))" "now ex \<le> now ex'"
  shows "fst (getFunctionEnv m ex) = Inl e \<and>
     functionEnv (snd (getFunctionEnv m ex)) = functionEnv ex \<and>
     take (Suc (length (apiCalls ex'))) (apiCalls (snd (getFunctionEnv m ex'))) =
       apiCalls ex' @ [FunctionsGet (Namespace m) (Name m)]"
proof -
  have r: "fst (getFunctionEnv m ex) = Inl e"
    using miss fail by (auto simp: getFunctionEnv_def Let_def)
  have c: "functionEnv (snd (getFunctionEnv m ex)) = functionEnv ex"
    using miss fail by (auto simp: getFunctionEnv_def Let_def)
  have "cache_Get (functionEnv ex') (now ex') (CacheKey m) = None"
    using cache_Get_miss_later [OF miss later(2)] later(1) c by simp
  then show ?thesis
    using r c getFunctionEnv_miss_first_call by simp
qed

theorem getFunctionEnv_failure_not_cached_witness:
  "cache_Get (functionEnv brokenExecutor) (now brokenExecutor) (CacheKey exampleMeta) = None \<and>
   fst (getFunctionEnv exampleMeta brokenExecutor) = Inl Unavailable \<and>
   apiCalls (snd (getFunctionEnv exampleMeta brokenExecutor)) =
     [FunctionsGet ''default'' ''hello'', EnvironmentsGet ''default'' ''nodejs''] \<and>
   take 3 (apiCalls (snd (getFunctionEnv exampleMeta (snd (getFunctionEnv exampleMeta brokenExecutor))))) =
     [FunctionsGet ''default'' ''hello'', EnvironmentsGet ''default'' ''nodejs'',
      FunctionsGet ''default'' ''hello'']"
proof -
  let ?ex1 = "snd (getFunctionEnv exampleMeta brokenExecutor)"
  have miss: "cache_Get (functionEnv brokenExecutor) (now brokenExecutor) (CacheKey exampleMeta) = None"
    by (simp add: brokenExecutor_def MakeExecutor_def MakeCache_def cache_Get_def)
  have fail: "Functions_Get (fissionClient brokenExecutor) (Namespace exampleMeta) (Name exampleMeta)
        = Inl Unavailable \<or>
      (\<exists>f. Functions_Get (fissionClient brokenExecutor) (Namespace exampleMeta) (Name exampleMeta) = Inr f \<and>
           Environments_Get (fissionClient brokenExecutor)
             (refNamespace (specEnvironment f)) (refName (specEnvironment f)) = Inl Unavailable)"
    by (simp add: brokenExecutor_def MakeExecutor_def brokenClient_def exampleMeta_def)
  have calls: "apiCalls ?ex1 = [FunctionsGet ''default'' ''hello'', EnvironmentsGet ''default'' ''nodejs'']"
    by (simp add: getFunctionEnv_def brokenExecutor_def MakeExecutor_def MakeCache_def
        cache_Get_def brokenClient_def exampleMeta_def Let_def)
  have later: "now brokenExecutor \<le> now ?ex1"
    by (simp add: brokenExecutor_def MakeExecutor_def)
  show ?thesis
    using getFunctionEnv_failure_not_cached [OF miss fail refl later] miss calls
    by (simp add: exampleMeta_def numeral_3_eq_3)
qed

lemma getFunctionEnv_now: "now (snd (getFunctionEnv m ex)) = now ex"
  by (simp add: getFunctionEnv_def Let_def split: option.splits sum.splits)

lemma getFunctionEnv_ctimeExpiry:
  "ctimeExpiry (functionEnv (snd (getFunctionEnv m ex))) = ctimeExpiry (functionEnv ex)"
  by (simp add: getFunctionEnv_def cache_Set_def Let_def split: option.splits sum.splits)

lemma getFunctionEnv_entries_other:
  "CacheKey m \<noteq> k \<Longrightarrow>
   entries (functionEnv (snd (getFunctionEnv m ex))) k = entries (functionEnv ex) k"
  by (simp add: getFunctionEnv_def cache_Set_def Let_def split: option.splits sum.splits)

lemma cache_Get_fresh:
  "entries c k = Some (v, t0) \<Longrightarrow> t < t0 + ctimeExpiry c \<Longrightarrow> cache_Get c t k = Some v"
  by (simp add: cache_Get_def)

lemma resolutions_length: "length (resolutions cs ex) = length cs"
  by (induction cs arbitrary: ex) (auto simp: Let_def split: prod.splits)

lemma resolutions_hits:
  assumes "entries (functionEnv ex) k = Some (env, t0)"
    and "now ex + sum_list (map fst cs) < t0 + ctimeExpiry (functionEnv ex)"
    and "i < length cs" and "CacheKey (snd (snd (cs ! i))) = k"
  shows "resolutions cs ex ! i = (Inr env, 0)"
  using assms
proof (induction cs arbitrary: ex i)
  case Nil
  then show ?case by simp
next
  case (Cons c cs)
  obtain d client m' where c: "c = (d, client, m')" by (cases c) auto
  let ?ex0 = "ex\<lparr>now := now ex + d, fissionClient := client\<rparr>"
  let ?ex1 = "snd (getFunctionEnv m' ?ex0)"
  have fresh: "now ?ex0 < t0 + ctimeExpiry (functionEnv ?ex0)"
    using Cons.prems(2) c by simp
  have hit: "CacheKey m' = k \<Longrightarrow> getFunctionEnv m' ?ex0 = (Inr env, ?ex0)"
    using getFunctionEnv_hit [of ?ex0 m' env] cache_Get_fresh [of "functionEnv ?ex0" k env t0 "now ?ex0"]
      Cons.prems(1) fresh by simp
  have ent: "entries (functionEnv ?ex1) k = Some (env, t0)"
  proof (cases "CacheKey m' = k")
    case True
    then show ?thesis using hit Cons.prems(1) by simp
  next
    case False
    then show ?thesis using getFunctionEnv_entries_other [of m' k ?ex0] Cons.prems(1) by simp
  qed
  have win: "now ?ex1 + sum_list (map fst cs) < t0 + ctimeExpiry (functionEnv ?ex1)"
    using Cons.prems(2) c by (simp add: getFunctionEnv_now getFunctionEnv_ctimeExpiry)
  have unfold: "resolutions (c # cs) ex =
      (fst (getFunctionEnv m' ?ex0), length (apiCalls ?ex1) - length (apiCalls ?ex0))
        # resolutions cs ?ex1"
    using c by (simp add: Let_def split: prod.splits)
  show ?case
  proof (cases i)
    case 0
    then have "CacheKey m' = k" using Cons.prems(4) c by simp
    then show ?thesis using hit unfold 0 by simp
  next
    case (Suc j)
    then have "resolutions cs ?ex1 ! j = (Inr env, 0)"
      using Cons.IH [OF ent win, of j] Cons.prems(3,4) by simp
    then show ?thesis using unfold Suc by simp
  qed
qed

text \<open>
  C6. On a miss the resolver fetches the function by namespace and name, then the
  environment it refers to, stores the environment under the function identity at the
  current time, and returns it. In any sequence of later calls that ends before the expiry
  has passed, every call for that identity returns the stored environment and makes no
  call to the metadata client, whatever the client would answer by then. A hit returns the
  cached environment and changes nothing.
\<close>

theorem getFunctionEnv_one_fetch_per_window:
  assumes miss: "cache_Get (functionEnv ex) (now ex) (CacheKey m) = None"
    and f: "Functions_Get (fissionClient ex) (Namespace m) (Name m) = Inr f"
    and e: "Environments_Get (fissionClient ex)
              (refNamespace (specEnvironment f)) (refName (specEnvironment f)) = Inr env"
    and window: "sum_list (map fst cs) < ctimeExpiry (functionEnv ex)"
  shows "getFunctionEnv m ex =
      (Inr env,
       ex\<lparr>apiCalls := apiCalls ex @
            [FunctionsGet (Namespace m) (Name m),
             EnvironmentsGet (refNamespace (specEnvironment f)) (refName (specEnvironment f))],
          functionEnv := cache_Set (functionEnv ex) (now ex) (CacheKey m) env\<rparr>) \<and>
    (\<forall>i < length cs. CacheKey (snd (snd (cs ! i))) = CacheKey m \<longrightarrow>
       resolutions cs (snd (getFunctionEnv m ex)) ! i = (Inr env, 0)) \<and>
    (\<forall>ex' env'. cache_Get (functionEnv ex') (now ex') (CacheKey m) = Some env' \<longrightarrow>
       getFunctionEnv m ex' = (Inr env', ex'))"
proof -
  let ?ex1 = "snd (getFunctionEnv m ex)"
  have first: "getFunctionEnv m ex =
      (Inr env,
       ex\<lparr>apiCalls := apiCalls ex @
            [FunctionsGet (Namespace m) (Name m),
             EnvironmentsGet (refNamespace (specEnvironment f)) (refName (specEnvironment f))],
          functionEnv := cache_Set (functionEnv ex) (now ex) (CacheKey m) env\<rparr>)"
    using miss f e by (simp add: getFunctionEnv_def Let_def)
  have ent: "entries (functionEnv ?ex1) (CacheKey m) = Some (env, now ex)"
    using first by (simp add: cache_Set_def)
  have win: "now ?ex1 + sum_list (map fst cs) < now ex + ctimeExpiry (functionEnv ?ex1)"
    using window first by (simp add: cache_Set_def)
  show ?thesis
    using first resolutions_hits [OF ent win] getFunctionEnv_hit by blast
qed

theorem getFunctionEnv_one_fetch_per_window_witness:
  "cache_Get (functionEnv poolExecutor) (now poolExecutor) (CacheKey exampleMeta) = None \<and>
   fst (getFunctionEnv exampleMeta poolExecutor) = Inr exampleEnv \<and>
   apiCalls (snd (getFunctionEnv exampleMeta poolExecutor)) =
     [FunctionsGet ''default'' ''hello'', EnvironmentsGet ''default'' ''nodejs''] \<and>
   resolutions [(4 * Second, brokenClient, exampleMeta), (Second, brokenClient, otherMeta),
                (4 * Second, brokenClient, exampleMeta)]
     (snd (getFunctionEnv exampleMeta poolExecutor)) ! 2 = (Inr exampleEnv, 0)"
proof -
  let ?cs = "[(4 * Second, brokenClient, exampleMeta), (Second, brokenClient, otherMeta),
                (4 * Second, brokenClient, exampleMeta)]"
  have miss: "cache_Get (functionEnv poolExecutor) (now poolExecutor) (CacheKey exampleMeta) = None"
    by (simp add: poolExecutor_def MakeExecutor_def MakeCache_def cache_Get_def)
  have f: "Functions_Get (fissionClient poolExecutor) (Namespace exampleMeta) (Name exampleMeta) =
      Inr \<lparr>fnMetadata = exampleMeta,
           specEnvironment = \<lparr>refNamespace = ''default'', refName = ''nodejs''\<rparr>\<rparr>"
    by (simp add: poolExecutor_def MakeExecutor_def exampleClient_def exampleMeta_def)
  have e: "Environments_Get (fissionClient poolExecutor)
      (refNamespace (specEnvironment \<lparr>fnMetadata = exampleMeta,
           specEnvironment = \<lparr>refNamespace = ''default'', refName = ''nodejs''\<rparr>\<rparr>))
      (refName (specEnvironment \<lparr>fnMetadata = exampleMeta,
           specEnvironment = \<lparr>refNamespace = ''default'', refName = ''nodejs''\<rparr>\<rparr>)) = Inr exampleEnv"
    by (simp add: poolExecutor_def MakeExecutor_def exampleClient_def)
  have window: "sum_list (map fst ?cs) < ctimeExpiry (functionEnv poolExecutor)"
    by (simp add: poolExecutor_def MakeExecutor_def MakeCache_def Second_def)
  note T = getFunctionEnv_one_fetch_per_window [OF miss f e window]
  have r: "fst (getFunctionEnv exampleMeta poolExecutor) = Inr exampleEnv"
    using T by simp
  have calls: "apiCalls (snd (getFunctionEnv exampleMeta poolExecutor)) =
     [FunctionsGet ''default'' ''hello'', EnvironmentsGet ''default'' ''nodejs'']"
    using T by (simp add: poolExecutor_def MakeExecutor_def exampleMeta_def)
  have i: "2 < length ?cs" by simp
  have k: "CacheKey (snd (snd (?cs ! 2))) = CacheKey exampleMeta" by simp
  have "resolutions ?cs (snd (getFunctionEnv exampleMeta poolExecutor)) ! 2 = (Inr exampleEnv, 0)"
    using T i k by blast
  then show ?thesis
    using miss r calls by simp
qed

section \<open>The bookkeeping is invariant\<close>


















section \<open>Responses and progress\<close>





















section \<open>Duplicates, release and the marker\<close>














section \<open>One creation, one service\<close>

















end
